theory Spec2Isabelle
  imports Main "HOL-Library.Multiset"
begin

section \<open>Data model of bitwarden\_bulk\_delete.go\<close>

text \<open>
  The three structs of the program.  Go's \<open>int\<close> is read as a mathematical integer.  The
  program's arithmetic on it is \<open>len(items)\<close>, \<open>completed++\<close> (run at most \<open>len(items)\<close> times)
  and the counter \<open>w\<close> of the loop that starts the workers, which goes from 1 to the batch
  size and starts one goroutine at each increment; none of these can reach the end of the
  64-bit range in a run that a machine can hold.
\<close>

record BitwardenItem =
  ID :: string
  Name :: string

record CommandOptions =
  searchTerm :: string
  batchSize :: int
  isPermanent :: bool

record DeleteStats =
  total :: int
  completed :: int

section \<open>Subprocesses\<close>

text \<open>
  What a subprocess started through \<open>os/exec\<close> did: whether it could be started at all,
  the writes it made to its two output streams in the order they happened, and its exit
  status (\<open>-1\<close> when a signal ended it).
\<close>

datatype fd = Stdout | Stderr

record proc_result =
  startable :: bool
  chunks :: "(fd \<times> string) list"
  exit_code :: int

text \<open>
  The error of a command: it could not be started, or it exited with a status other than
  zero.  The second carries the \<open>Stderr\<close> field of Go's \<open>ExitError\<close>, which only \<open>Output\<close>
  fills in.
\<close>

datatype exec_error = StartError | ExitError int string

definition run_err :: "proc_result \<Rightarrow> exec_error option" where
  "run_err p =
     (if \<not> startable p then Some StartError
      else if exit_code p \<noteq> 0 then Some (ExitError (exit_code p) [])
      else None)"

definition written :: "fd \<Rightarrow> proc_result \<Rightarrow> string" where
  "written f p =
     (if startable p then concat (map snd (filter (\<lambda>c. fst c = f) (chunks p))) else [])"

text \<open>
  What \<open>Output\<close> keeps of standard error when the caller has set no \<open>Stderr\<close>: all of it up
  to 64 KiB, else the first and the last 32 KiB around a line that says how many bytes
  were left out.
\<close>

function decimal :: "nat \<Rightarrow> string" where
  "decimal n =
     (if n < 10 then [char_of (48 + n)]
      else decimal (n div 10) @ [char_of (48 + n mod 10)])"
  by pat_completeness auto
termination
  by (relation "measure id") auto

declare decimal.simps [simp del]

definition prefixSuffixSaver :: "string \<Rightarrow> string" where
  "prefixSuffixSaver err =
     (if length err \<le> 2 * 32768 then err
      else take 32768 err
           @ [CHR 0x0A] @ ''... omitting '' @ decimal (length err - 2 * 32768) @ '' bytes ...''
           @ [CHR 0x0A]
           @ drop (length err - 32768) err)"

text \<open>
  The three ways the program waits for a command.  \<open>CombinedOutput\<close> hands back what the
  process wrote, both streams through one buffer; \<open>Output\<close> hands back standard output,
  and puts what it kept of standard error into the error when the process exited with a
  status other than zero; \<open>Run\<close> hands back no output (both streams go to the null
  device).  All three report an error when the process cannot be started or its exit
  status is not zero.
\<close>

definition cmd_CombinedOutput :: "proc_result \<Rightarrow> string \<times> exec_error option" where
  "cmd_CombinedOutput p =
     ((if startable p then concat (map snd (chunks p)) else []), run_err p)"

definition cmd_Output :: "proc_result \<Rightarrow> string \<times> exec_error option" where
  "cmd_Output p =
     (written Stdout p,
      (case run_err p of
         Some (ExitError status _) \<Rightarrow>
           Some (ExitError status (prefixSuffixSaver (written Stderr p)))
       | other \<Rightarrow> other))"

definition cmd_Run :: "proc_result \<Rightarrow> exec_error option" where
  "cmd_Run p = run_err p"

section \<open>Reading the confirmation: fmt.Scanln and strings.ToLower\<close>

text \<open>
  Standard input as \<open>fmt\<close> sees it: the runes (code points) it decodes, and what the reader
  returns once they are used up, \<open>io.EOF\<close> or another error.  \<open>Scanln\<close> with one string
  operand skips blanks, fails on a newline or on the end of input before any word, reads
  the runes up to the next blank, and then accepts only blanks up to the newline or the
  end of input.
\<close>

type_synonym rune = nat

datatype src_end = AtEOF | Broken

datatype scan_error =
    Scan_UnexpectedNewline
  | Scan_EOF
  | Scan_ExpectedNewline
  | Scan_ReadError

definition isSpace :: "rune \<Rightarrow> bool" where
  "isSpace r \<longleftrightarrow>
     (0x09 \<le> r \<and> r \<le> 0x0D) \<or> r = 0x20 \<or> r = 0x85 \<or> r = 0xA0 \<or> r = 0x1680
     \<or> (0x2000 \<le> r \<and> r \<le> 0x200A) \<or> r = 0x2028 \<or> r = 0x2029 \<or> r = 0x202F
     \<or> r = 0x205F \<or> r = 0x3000"

fun SkipSpace :: "src_end \<Rightarrow> rune list \<Rightarrow> scan_error + rune list" where
  "SkipSpace e [] = (if e = Broken then Inl Scan_ReadError else Inr [])"
| "SkipSpace e (r # rs) =
     (if r = 0x0D \<and> (case rs of [] \<Rightarrow> False | n # _ \<Rightarrow> n = 0x0A) then SkipSpace e rs
      else if r = 0x0A then Inl Scan_UnexpectedNewline
      else if \<not> isSpace r then Inr (r # rs)
      else SkipSpace e rs)"

fun token :: "src_end \<Rightarrow> rune list \<Rightarrow> scan_error + (rune list \<times> rune list)" where
  "token e [] = (if e = Broken then Inl Scan_ReadError else Inr ([], []))"
| "token e (r # rs) =
     (if isSpace r then Inr ([], r # rs)
      else (case token e rs of
              Inl err \<Rightarrow> Inl err
            | Inr (word, rest) \<Rightarrow> Inr (r # word, rest)))"

definition convertString :: "src_end \<Rightarrow> rune list \<Rightarrow> scan_error + (rune list \<times> rune list)" where
  "convertString e rs =
     (case SkipSpace e rs of
        Inl err \<Rightarrow> Inl err
      | Inr [] \<Rightarrow> Inl Scan_EOF
      | Inr (r # rest) \<Rightarrow>
          (case SkipSpace e (r # rest) of
             Inl err \<Rightarrow> Inl err
           | Inr rs' \<Rightarrow> token e rs'))"

fun expect_newline :: "src_end \<Rightarrow> rune list \<Rightarrow> scan_error option" where
  "expect_newline e [] = (if e = Broken then Some Scan_ReadError else None)"
| "expect_newline e (r # rs) =
     (if r = 0x0A then None
      else if \<not> isSpace r then Some Scan_ExpectedNewline
      else expect_newline e rs)"

definition Scanln :: "src_end \<Rightarrow> rune list \<Rightarrow> scan_error + rune list" where
  "Scanln e rs =
     (case convertString e rs of
        Inl err \<Rightarrow> Inl err
      | Inr (word, rest) \<Rightarrow>
          (case expect_newline e rest of
             Some err \<Rightarrow> Inl err
           | None \<Rightarrow> Inr word))"

text \<open>
  The two library functions the program is parameterised by: \<open>json.Unmarshal\<close> into a
  slice of items, and Unicode's lower-case mapping of the runes beyond ASCII.
  \<open>strings.ToLower\<close> maps \<open>A\<close>..\<open>Z\<close> to \<open>a\<close>..\<open>z\<close>, keeps every other ASCII rune and maps every
  other rune through the Unicode table.  No rune beyond ASCII has \<open>y\<close>, \<open>e\<close> or \<open>s\<close> as its
  lower case; \<open>lower_ok\<close> says so of the table.
\<close>

record lib =
  json_Unmarshal :: "string \<Rightarrow> string + BitwardenItem list"
  unicode_ToLower :: "rune \<Rightarrow> rune"

definition rune_ToLower :: "lib \<Rightarrow> rune \<Rightarrow> rune" where
  "rune_ToLower l r =
     (if 0x41 \<le> r \<and> r \<le> 0x5A then r + 0x20
      else if r < 0x80 then r
      else unicode_ToLower l r)"

definition ToLower :: "lib \<Rightarrow> rune list \<Rightarrow> rune list" where
  "ToLower l w = map (rune_ToLower l) w"

definition lower_ok :: "lib \<Rightarrow> bool" where
  "lower_ok l \<longleftrightarrow>
     (\<forall>r. unicode_ToLower l r = 0x79 \<or> unicode_ToLower l r = 0x65 \<or> unicode_ToLower l r = 0x73
          \<longrightarrow> r < 0x80)"

definition runes :: "string \<Rightarrow> rune list" where
  "runes w = map (\<lambda>c. of_char c) w"

section \<open>Errors and printed lines\<close>

datatype error =
    Err_CLINotFound
  | Err_ListExec exec_error
  | Err_ListParse string

text \<open>The lines the program prints, one constructor per \<open>Printf\<close> of the source.\<close>

datatype msg =
    Msg_FatalError error
  | Msg_ModePermanent
  | Msg_ModeStandard
  | Msg_Syncing string
  | Msg_SyncFailed exec_error
  | Msg_SyncDone
  | Msg_CommandOutput string
  | Msg_WarnInitialSync
  | Msg_WarnFinalSync
  | Msg_Fetching
  | Msg_Found int
  | Msg_Confirm bool int
  | Msg_ConfirmReadError scan_error
  | Msg_Cancelled
  | Msg_Starting
  | Msg_DeleteError string exec_error
  | Msg_Progress int int
  | Msg_Newline
  | Msg_AllDeleted bool int

section \<open>The batch deletion engine: processItems, deleteWorker, processResults\<close>

text \<open>
  A buffered Go channel: the queued values (oldest first), the capacity given to \<open>make\<close>,
  and whether \<open>close\<close> has been called.
\<close>

record chan =
  buf :: "string list"
  cap :: nat
  closed :: bool

text \<open>
  Where each goroutine stands.  A worker is at the head of its \<open>range jobs\<close> loop, holds a
  job whose command it is about to run, holds a job whose identifier it is about to send
  on \<open>results\<close>, has left the loop with its deferred \<open>wg.Done()\<close> pending, or has returned.
  The main goroutine is in the worker-start loop (with the loop counter \<open>w\<close>), in the loop
  that sends the jobs (with the items not yet sent; with none left it is at
  \<open>close(jobs)\<close>), at the \<open>go func()\<close> that starts the closer, in \<open>processResults\<close>, at the
  two prints after the loop, or has returned.  The anonymous goroutine is not started
  yet, at \<open>wg.Wait()\<close>, at \<open>close(results)\<close>, or has returned.
\<close>

datatype wpc = W_Range | W_Exec string | W_Send string | W_Done | W_Exited

datatype mpc =
    M_Spawn int
  | M_Feed "BitwardenItem list"
  | M_GoCloser
  | M_Drain
  | M_Show
  | M_Return

datatype cpc = C_Absent | C_Wait | C_Close | C_Exited

text \<open>
  The state of one call of \<open>processItems\<close>.  Besides the program's own variables it keeps
  a history: every printed line, every subprocess started (its argument vector and what
  it did), every receive from \<open>jobs\<close> (worker index and identifier), every send on
  \<open>results\<close> and every value \<open>processResults\<close> took out of \<open>results\<close>.
\<close>

record engine =
  mainpc :: mpc
  workers :: "wpc list"
  closer :: cpc
  jobs :: chan
  results :: chan
  wg :: int
  stats :: DeleteStats
  out :: "msg list"
  invoked :: "(string list \<times> proc_result) list"
  received :: "(nat \<times> string) list"
  emitted :: "string list"
  drained :: "string list"

text \<open>The argument vector of the delete command, as \<open>deleteWorker\<close> builds it.\<close>

definition deleteArgv :: "bool \<Rightarrow> string \<Rightarrow> string list" where
  "deleteArgv isPerm itemID =
     (if isPerm then [''bw'', ''delete'', ''item'', itemID, ''--permanent'']
      else [''bw'', ''delete'', ''item'', itemID])"

text \<open>
  \<open>processItems\<close> after its first print and the two \<open>make\<close>: both channels empty, with
  capacity \<open>stats.total\<close>, no worker yet.  (\<open>runBulkDelete\<close> sets \<open>total\<close> to the number of
  items, so the capacity is never negative.)
\<close>

definition init_engine :: "BitwardenItem list \<Rightarrow> DeleteStats \<Rightarrow> engine" where
  "init_engine items st =
     \<lparr> mainpc = M_Spawn 1, workers = [], closer = C_Absent,
       jobs = \<lparr> buf = [], cap = nat (total st), closed = False \<rparr>,
       results = \<lparr> buf = [], cap = nat (total st), closed = False \<rparr>,
       wg = 0, stats = st, out = [Msg_Starting],
       invoked = [], received = [], emitted = [], drained = [] \<rparr>"

text \<open>
  One pass through the loop of \<open>processResults\<close>: take the oldest value out of \<open>results\<close>,
  count it and print the progress line; leave the loop when \<open>results\<close> is empty and
  closed; wait (\<open>None\<close>) when it is empty and still open.
\<close>

definition processResults_step :: "engine \<Rightarrow> engine option" where
  "processResults_step s =
     (case buf (results s) of
        r # rs \<Rightarrow>
          Some (s\<lparr> results := (results s)\<lparr> buf := rs \<rparr>,
                    stats := (stats s)\<lparr> completed := completed (stats s) + 1 \<rparr>,
                    out := out s @ [Msg_Progress (completed (stats s) + 1) (total (stats s))],
                    drained := drained s @ [r] \<rparr>)
      | [] \<Rightarrow> if closed (results s) then Some (s\<lparr> mainpc := M_Show \<rparr>) else None)"

definition showCompletionMessage :: "DeleteStats \<Rightarrow> CommandOptions \<Rightarrow> msg list" where
  "showCompletionMessage st options = [Msg_AllDeleted (isPermanent options) (total st)]"

text \<open>
  One step of the main goroutine inside \<open>processItems\<close>; \<open>None\<close> when it is blocked or has
  returned.  A send blocks while the buffer is full.  (A channel made with capacity 0
  would hand a value over to a waiting receiver; the capacity is the number of items, so
  that happens only when there is nothing to send.)  \<open>wg.Add(1)\<close> and the \<open>go\<close> statement
  after it are one step: nothing reads the counter before the closer is started.  The
  \<open>Println\<close> that ends \<open>processResults\<close>, the completion message and the return are one
  step as well.
\<close>

definition processItems_step ::
  "CommandOptions \<Rightarrow> BitwardenItem list \<Rightarrow> engine \<Rightarrow> engine option" where
  "processItems_step opts items s =
     (case mainpc s of
        M_Spawn w \<Rightarrow>
          if w \<le> batchSize opts
          then Some (s\<lparr> wg := wg s + 1, workers := workers s @ [W_Range],
                       mainpc := M_Spawn (w + 1) \<rparr>)
          else Some (s\<lparr> mainpc := M_Feed items \<rparr>)
      | M_Feed (item # rest) \<Rightarrow>
          if length (buf (jobs s)) < cap (jobs s)
          then Some (s\<lparr> jobs := (jobs s)\<lparr> buf := buf (jobs s) @ [ID item] \<rparr>,
                       mainpc := M_Feed rest \<rparr>)
          else None
      | M_Feed [] \<Rightarrow>
          Some (s\<lparr> jobs := (jobs s)\<lparr> closed := True \<rparr>, mainpc := M_GoCloser \<rparr>)
      | M_GoCloser \<Rightarrow> Some (s\<lparr> closer := C_Wait, mainpc := M_Drain \<rparr>)
      | M_Drain \<Rightarrow> processResults_step s
      | M_Show \<Rightarrow>
          Some (s\<lparr> out := out s @ [Msg_Newline] @ showCompletionMessage (stats s) opts,
                    mainpc := M_Return \<rparr>)
      | M_Return \<Rightarrow> None)"

text \<open>One step of the goroutine that waits for the workers and closes \<open>results\<close>.\<close>

definition closer_step :: "engine \<Rightarrow> engine option" where
  "closer_step s =
     (case closer s of
        C_Absent \<Rightarrow> None
      | C_Wait \<Rightarrow> if wg s = 0 then Some (s\<lparr> closer := C_Close \<rparr>) else None
      | C_Close \<Rightarrow>
          Some (s\<lparr> results := (results s)\<lparr> closed := True \<rparr>, closer := C_Exited \<rparr>)
      | C_Exited \<Rightarrow> None)"

text \<open>
  One step of \<open>deleteWorker\<close> number \<open>i\<close> (the worker started with \<open>id = i + 1\<close>); \<open>p\<close> is what
  the subprocess does if this step is the one that runs the delete command.  A receive
  from \<open>jobs\<close> waits (\<open>None\<close>) while the channel is empty and open.
\<close>

definition deleteWorker_step :: "CommandOptions \<Rightarrow> nat \<Rightarrow> proc_result \<Rightarrow> engine \<Rightarrow> engine option" where
  "deleteWorker_step opts i p s =
     (if i < length (workers s) then
        (case workers s ! i of
           W_Range \<Rightarrow>
             (case buf (jobs s) of
                itemID # rest \<Rightarrow>
                  Some (s\<lparr> jobs := (jobs s)\<lparr> buf := rest \<rparr>,
                            workers := (workers s)[i := W_Exec itemID],
                            received := received s @ [(i, itemID)] \<rparr>)
              | [] \<Rightarrow>
                  if closed (jobs s) then Some (s\<lparr> workers := (workers s)[i := W_Done] \<rparr>)
                  else None)
         | W_Exec itemID \<Rightarrow>
             Some (s\<lparr> invoked := invoked s @ [(deleteArgv (isPermanent opts) itemID, p)],
                       out := out s @ (case cmd_Run p of
                                         Some err \<Rightarrow> [Msg_DeleteError itemID err]
                                       | None \<Rightarrow> []),
                       workers := (workers s)[i := W_Send itemID] \<rparr>)
         | W_Send itemID \<Rightarrow>
             if length (buf (results s)) < cap (results s)
             then Some (s\<lparr> results := (results s)\<lparr> buf := buf (results s) @ [itemID] \<rparr>,
                          emitted := emitted s @ [itemID],
                          workers := (workers s)[i := W_Range] \<rparr>)
             else None
         | W_Done \<Rightarrow> Some (s\<lparr> wg := wg s - 1, workers := (workers s)[i := W_Exited] \<rparr>)
         | W_Exited \<Rightarrow> None)
      else None)"

text \<open>
  The scheduler and the outside world choose, step by step, which goroutine moves and
  what a started subprocess does.  A schedule is the list of these choices.
\<close>

datatype action = StepMain | StepCloser | StepWorker nat proc_result

fun exec :: "CommandOptions \<Rightarrow> BitwardenItem list \<Rightarrow> action \<Rightarrow> engine \<Rightarrow> engine option" where
  "exec opts items StepMain s = processItems_step opts items s"
| "exec opts items StepCloser s = closer_step s"
| "exec opts items (StepWorker i p) s = deleteWorker_step opts i p s"

fun run :: "CommandOptions \<Rightarrow> BitwardenItem list \<Rightarrow> action list \<Rightarrow> engine \<Rightarrow> engine option" where
  "run opts items [] s = Some s"
| "run opts items (a # as) s =
     (case exec opts items a s of None \<Rightarrow> None | Some s' \<Rightarrow> run opts items as s')"

text \<open>
  The state in which \<open>runBulkDelete\<close> enters \<open>processItems\<close>, and the states in which
  \<open>processItems\<close> has returned.
\<close>

definition start :: "BitwardenItem list \<Rightarrow> engine" where
  "start items = init_engine items \<lparr> total = int (length items), completed = 0 \<rparr>"

definition finished :: "engine \<Rightarrow> bool" where
  "finished s \<longleftrightarrow> mainpc s = M_Return"

text \<open>
  \<open>processItems\<close> under a given schedule: the state in which it returns, when the schedule is
  a complete run of it.  Its return value is always \<open>nil\<close>.
\<close>

definition processItems ::
  "BitwardenItem list \<Rightarrow> DeleteStats \<Rightarrow> CommandOptions \<Rightarrow> action list \<Rightarrow> engine option" where
  "processItems items st opts sched =
     (case run opts items sched (init_engine items st) of
        None \<Rightarrow> None
      | Some s \<Rightarrow> if finished s then Some s else None)"

section \<open>The sequential part: main, runBulkDelete and what it calls\<close>

record flag_values =
  flag_search :: string
  flag_s :: string
  flag_batch :: int
  flag_b :: int
  flag_permanent :: bool
  flag_p :: bool

definition parseCommandLineOptions :: "flag_values \<Rightarrow> CommandOptions" where
  "parseCommandLineOptions f =
     \<lparr> searchTerm = (if flag_search f = [] \<and> flag_s f \<noteq> [] then flag_s f else flag_search f),
       batchSize = (if flag_batch f = 1 \<and> flag_b f \<noteq> 1 then flag_b f else flag_batch f),
       isPermanent = (flag_permanent f \<or> flag_p f) \<rparr>"

definition checkBitwardenCLI :: "bool \<Rightarrow> error option" where
  "checkBitwardenCLI found = (if found then None else Some Err_CLINotFound)"

definition syncBitwarden :: "string \<Rightarrow> proc_result \<Rightarrow> msg list \<times> exec_error option" where
  "syncBitwarden context p =
     (let contextMsg = (if context \<noteq> [] then '' '' @ context else []);
          (syncOutput, err) = cmd_CombinedOutput p
      in case err of
           Some e \<Rightarrow>
             ([Msg_Syncing contextMsg, Msg_SyncFailed e, Msg_CommandOutput syncOutput], Some e)
         | None \<Rightarrow>
             ([Msg_Syncing contextMsg, Msg_SyncDone, Msg_CommandOutput syncOutput], None))"

definition listCmd :: "string \<Rightarrow> string" where
  "listCmd term =
     ''bw list items'' @
     (if term \<noteq> [] then '' --search '' @ [CHR 0x27] @ term @ [CHR 0x27] else [])"

definition listArgv :: "string \<Rightarrow> string list" where
  "listArgv term = [''sh'', ''-c'', listCmd term]"

definition fetchBitwardenItems ::
  "lib \<Rightarrow> string \<Rightarrow> proc_result \<Rightarrow> msg list \<times> (error + BitwardenItem list)" where
  "fetchBitwardenItems l term p =
     ([Msg_Fetching],
      (let (listOutput, err) = cmd_Output p
       in case err of
            Some e \<Rightarrow> Inl (Err_ListExec e)
          | None \<Rightarrow>
              (case json_Unmarshal l listOutput of
                 Inl m \<Rightarrow> Inl (Err_ListParse m)
               | Inr items \<Rightarrow> Inr items)))"

definition displayDeletionMode :: "CommandOptions \<Rightarrow> msg list" where
  "displayDeletionMode opts = (if isPermanent opts then [Msg_ModePermanent] else [Msg_ModeStandard])"

definition displayItemCount :: "DeleteStats \<Rightarrow> msg list" where
  "displayItemCount st = [Msg_Found (total st)]"

definition confirmDeletion ::
  "lib \<Rightarrow> DeleteStats \<Rightarrow> CommandOptions \<Rightarrow> src_end \<Rightarrow> rune list \<Rightarrow> msg list \<times> bool" where
  "confirmDeletion l st opts e rs =
     (case Scanln e rs of
        Inl err \<Rightarrow> ([Msg_Confirm (isPermanent opts) (total st), Msg_ConfirmReadError err], False)
      | Inr confirm \<Rightarrow>
          ([Msg_Confirm (isPermanent opts) (total st)],
           ToLower l confirm = runes ''y'' \<or> ToLower l confirm = runes ''yes''))"

text \<open>
  Everything one run takes from outside: whether \<open>bw\<close> is on the path, what the three
  sequential subprocesses do, standard input, and the schedule of the engine (which
  carries what the delete subprocesses do).
\<close>

record world =
  lookPath :: bool
  sync_before :: proc_result
  list_result :: proc_result
  stdin :: "rune list"
  stdin_end :: src_end
  schedule :: "action list"
  sync_after :: proc_result

text \<open>
  What one run did: the error \<open>runBulkDelete\<close> returned, the lines printed, the subprocesses
  started in the order they were started, and the statistics record once it exists.
\<close>

record outcome =
  returned :: "error option"
  printed :: "msg list"
  spawned :: "(string list \<times> proc_result) list"
  final_stats :: "DeleteStats option"

definition runBulkDelete :: "lib \<Rightarrow> world \<Rightarrow> CommandOptions \<Rightarrow> outcome option" where
  "runBulkDelete l w options =
     (case checkBitwardenCLI (lookPath w) of
        Some err \<Rightarrow>
          Some \<lparr> returned = Some err, printed = [], spawned = [], final_stats = None \<rparr>
      | None \<Rightarrow>
          (let (syncOut, syncErr) = syncBitwarden ''before starting'' (sync_before w);
               out1 = displayDeletionMode options @ syncOut
                      @ (if syncErr \<noteq> None then [Msg_WarnInitialSync] else []);
               (fetchOut, fetched) = fetchBitwardenItems l (searchTerm options) (list_result w);
               out2 = out1 @ fetchOut;
               sp2 = [([''bw'', ''sync''], sync_before w),
                      (listArgv (searchTerm options), list_result w)]
           in case fetched of
                Inl err \<Rightarrow>
                  Some \<lparr> returned = Some err, printed = out2, spawned = sp2, final_stats = None \<rparr>
              | Inr items \<Rightarrow>
                  (let st = \<lparr> total = int (length items), completed = 0 \<rparr>;
                       out3 = out2 @ displayItemCount st
                   in if total st > 0 then
                        (let (confirmOut, confirmed) =
                               confirmDeletion l st options (stdin_end w) (stdin w)
                         in if \<not> confirmed then
                              Some \<lparr> returned = None,
                                     printed = out3 @ confirmOut @ [Msg_Cancelled],
                                     spawned = sp2, final_stats = Some st \<rparr>
                            else
                              (case processItems items st options (schedule w) of
                                 None \<Rightarrow> None
                               | Some s \<Rightarrow>
                                   (let (finalOut, finalErr) = syncBitwarden [] (sync_after w)
                                    in Some \<lparr> returned = None,
                                              printed = out3 @ confirmOut @ out s @ finalOut
                                                @ (if finalErr \<noteq> None then [Msg_WarnFinalSync] else []),
                                              spawned = sp2 @ invoked s
                                                @ [([''bw'', ''sync''], sync_after w)],
                                              final_stats = Some (stats s) \<rparr>)))
                      else
                        Some \<lparr> returned = None, printed = out3, spawned = sp2,
                               final_stats = Some st \<rparr>)))"

text \<open>
  What \<open>%v\<close> shows of the error that \<open>runBulkDelete\<close> returns: the error without the
  \<open>Stderr\<close> field of a failed list command.
\<close>

fun shown :: "error \<Rightarrow> error" where
  "shown (Err_ListExec (ExitError status err)) = Err_ListExec (ExitError status [])"
| "shown e = e"

text \<open>\<open>main\<close>: the outcome of the run and the exit status of the process.\<close>

definition main :: "lib \<Rightarrow> world \<Rightarrow> flag_values \<Rightarrow> (outcome \<times> int) option" where
  "main l w f =
     (case runBulkDelete l w (parseCommandLineOptions f) of
        None \<Rightarrow> None
      | Some r \<Rightarrow>
          (case returned r of
             Some err \<Rightarrow> Some (r\<lparr> printed := printed r @ [Msg_FatalError (shown err)] \<rparr>, 1)
           | None \<Rightarrow> Some (r, 0)))"

definition is_delete :: "string list \<times> proc_result \<Rightarrow> bool" where
  "is_delete c \<longleftrightarrow> take 3 (fst c) = [''bw'', ''delete'', ''item'']"

text \<open>
  Shorthands for what a run's world makes of the listing and of the confirmation, and for
  the two subprocesses every run starts first.
\<close>

definition listed :: "lib \<Rightarrow> world \<Rightarrow> CommandOptions \<Rightarrow> error + BitwardenItem list" where
  "listed l w opts = snd (fetchBitwardenItems l (searchTerm opts) (list_result w))"

definition confirmed :: "lib \<Rightarrow> world \<Rightarrow> CommandOptions \<Rightarrow> BitwardenItem list \<Rightarrow> bool" where
  "confirmed l w opts items =
     snd (confirmDeletion l \<lparr> total = int (length items), completed = 0 \<rparr> opts
            (stdin_end w) (stdin w))"

definition first_spawns :: "world \<Rightarrow> CommandOptions \<Rightarrow> (string list \<times> proc_result) list" where
  "first_spawns w opts =
     [([''bw'', ''sync''], sync_before w), (listArgv (searchTerm opts), list_result w)]"

text \<open>The words the confirmation takes for a yes: \<open>y\<close> and \<open>yes\<close> in every mix of upper and lower case.\<close>

definition affirmative :: "rune list list" where
  "affirmative =
     map runes [''y'', ''Y'', ''yes'', ''yeS'', ''yEs'', ''yES'', ''Yes'', ''YeS'', ''YEs'', ''YES'']"

section \<open>The shell between the program and the agent\<close>

text \<open>
  The list command is not started directly: the program hands one string to \<open>sh -c\<close>.
  What the agent then receives is what the shell makes of that string.  The part of the
  shell's word splitting that matters here: blanks separate words, a single quote opens
  a stretch that is taken literally up to the next single quote, and letters, digits and
  \<open>-\<close>, \<open>_\<close>, \<open>.\<close>, \<open>/\<close> stand for themselves.  The result is \<open>None\<close> when a quote is left
  open (the shell reports a syntax error and starts nothing) and when the string uses any
  other shell syntax outside quotes.
\<close>

definition sh_plain :: "char \<Rightarrow> bool" where
  "sh_plain c \<longleftrightarrow>
     (let n = (of_char c :: nat)
      in (0x61 \<le> n \<and> n \<le> 0x7A) \<or> (0x41 \<le> n \<and> n \<le> 0x5A) \<or> (0x30 \<le> n \<and> n \<le> 0x39)
         \<or> n = 0x2D \<or> n = 0x5F \<or> n = 0x2E \<or> n = 0x2F)"

fun sh_words :: "bool \<Rightarrow> string option \<Rightarrow> string \<Rightarrow> string list option" where
  "sh_words quoted cur [] =
     (if quoted then None else Some (case cur of None \<Rightarrow> [] | Some w \<Rightarrow> [w]))"
| "sh_words quoted cur (c # cs) =
     (if quoted then
        (if c = CHR 0x27 then sh_words False cur cs
         else sh_words True (Some ((case cur of None \<Rightarrow> [] | Some w \<Rightarrow> w) @ [c])) cs)
      else if c = CHR 0x27 then
        sh_words True (Some (case cur of None \<Rightarrow> [] | Some w \<Rightarrow> w)) cs
      else if c = CHR '' '' then
        (case cur of
           None \<Rightarrow> sh_words False None cs
         | Some w \<Rightarrow> map_option (\<lambda>ws. w # ws) (sh_words False None cs))
      else if sh_plain c then
        sh_words False (Some ((case cur of None \<Rightarrow> [] | Some w \<Rightarrow> w) @ [c])) cs
      else None)"

definition agent_argv :: "string \<Rightarrow> string list option" where
  "agent_argv needle = sh_words False None (listCmd needle)"

section \<open>Invariants of the engine\<close>

text \<open>
  The identifiers a worker holds, the ones whose command it has already run, the workers
  that have not returned, the ones that have left their loop, and what the main goroutine
  has still to put on \<open>jobs\<close>.
\<close>

fun held :: "wpc \<Rightarrow> string list" where
  "held (W_Exec itemID) = [itemID]"
| "held (W_Send itemID) = [itemID]"
| "held _ = []"

fun sending :: "wpc \<Rightarrow> string list" where
  "sending (W_Send itemID) = [itemID]"
| "sending _ = []"

definition inflight :: "wpc list \<Rightarrow> string multiset" where
  "inflight ws = (\<Sum>w\<leftarrow>ws. mset (held w))"

definition executed :: "wpc list \<Rightarrow> string multiset" where
  "executed ws = (\<Sum>w\<leftarrow>ws. mset (sending w))"

definition alive :: "wpc list \<Rightarrow> nat" where
  "alive ws = (\<Sum>w\<leftarrow>ws. if w = W_Exited then 0 else 1)"

definition gone :: "wpc list \<Rightarrow> nat" where
  "gone ws = (\<Sum>w\<leftarrow>ws. if w = W_Done \<or> w = W_Exited then 1 else 0)"

fun pending :: "BitwardenItem list \<Rightarrow> mpc \<Rightarrow> string list" where
  "pending items (M_Spawn w) = map ID items"
| "pending items (M_Feed rest) = map ID rest"
| "pending items _ = []"

fun jobs_closed_at :: "mpc \<Rightarrow> bool" where
  "jobs_closed_at (M_Spawn w) = False"
| "jobs_closed_at (M_Feed rest) = False"
| "jobs_closed_at _ = True"

fun closer_started_at :: "mpc \<Rightarrow> bool" where
  "closer_started_at M_Drain = True"
| "closer_started_at M_Show = True"
| "closer_started_at M_Return = True"
| "closer_started_at _ = False"

fun drained_at :: "mpc \<Rightarrow> bool" where
  "drained_at M_Show = True"
| "drained_at M_Return = True"
| "drained_at _ = False"

fun workers_at :: "CommandOptions \<Rightarrow> mpc \<Rightarrow> nat \<Rightarrow> bool" where
  "workers_at opts (M_Spawn w) n \<longleftrightarrow> 1 \<le> w \<and> int n = w - 1 \<and> w - 1 \<le> max 0 (batchSize opts)"
| "workers_at opts _ n \<longleftrightarrow> int n = max 0 (batchSize opts)"

text \<open>
  Accounting: every identifier of the list is in exactly one place (still to be sent, in
  \<open>jobs\<close>, with a worker, in \<open>results\<close>, or counted), and \<open>completed\<close> is the number counted.
\<close>

definition inv_count :: "BitwardenItem list \<Rightarrow> engine \<Rightarrow> bool" where
  "inv_count items s \<longleftrightarrow>
     mset (map ID items) =
       mset (pending items (mainpc s)) + mset (buf (jobs s)) + inflight (workers s)
       + mset (buf (results s)) + mset (drained s)
     \<and> completed (stats s) = int (length (drained s))
     \<and> total (stats s) = int (length items)
     \<and> cap (jobs s) = length items
     \<and> cap (results s) = length items"

text \<open>
  Control: the wait group counts the workers that have not returned; the channels are
  closed exactly from the points of the program where they are closed; a worker leaves its
  loop only when \<open>jobs\<close> is closed and empty; the closer passes \<open>wg.Wait()\<close> only when every
  worker has returned; and the number of workers is the batch size (none when it is
  below one).
\<close>

definition inv_ctrl :: "CommandOptions \<Rightarrow> engine \<Rightarrow> bool" where
  "inv_ctrl opts s \<longleftrightarrow>
     wg s = int (alive (workers s))
     \<and> closed (jobs s) = jobs_closed_at (mainpc s)
     \<and> (closer s \<noteq> C_Absent) = closer_started_at (mainpc s)
     \<and> (0 < gone (workers s) \<longrightarrow> closed (jobs s) \<and> buf (jobs s) = [])
     \<and> (closer s = C_Close \<or> closer s = C_Exited \<longrightarrow> alive (workers s) = 0)
     \<and> closed (results s) = (closer s = C_Exited)
     \<and> (drained_at (mainpc s) \<longrightarrow> closed (results s) \<and> buf (results s) = [])
     \<and> workers_at opts (mainpc s) (length (workers s))"

text \<open>
  History: \<open>results\<close> is first in, first out; what was received from \<open>jobs\<close> is with a worker
  or has been sent on; the delete commands run are those of the identifiers sent on or
  about to be; and the error lines printed are those of the commands that failed, in the
  same order.
\<close>

fun is_delete_error :: "msg \<Rightarrow> bool" where
  "is_delete_error (Msg_DeleteError itemID err) = True"
| "is_delete_error _ = False"

definition error_line :: "string list \<times> proc_result \<Rightarrow> msg list" where
  "error_line c =
     (case cmd_Run (snd c) of
        Some err \<Rightarrow> [Msg_DeleteError (fst c ! 3) err]
      | None \<Rightarrow> [])"

definition inv_hist :: "CommandOptions \<Rightarrow> engine \<Rightarrow> bool" where
  "inv_hist opts s \<longleftrightarrow>
     emitted s = drained s @ buf (results s)
     \<and> mset (map snd (received s)) = inflight (workers s) + mset (emitted s)
     \<and> mset (map (\<lambda>c. fst c ! 3) (invoked s)) = executed (workers s) + mset (emitted s)
     \<and> (\<forall>c \<in> set (invoked s). fst c = deleteArgv (isPermanent opts) (fst c ! 3))
     \<and> filter is_delete_error (out s) = concat (map error_line (invoked s))
     \<and> (\<forall>r \<in> set (received s). fst r < length (workers s))"

definition inv :: "CommandOptions \<Rightarrow> BitwardenItem list \<Rightarrow> engine \<Rightarrow> bool" where
  "inv opts items s \<longleftrightarrow> inv_count items s \<and> inv_ctrl opts s \<and> inv_hist opts s"


text \<open>The run is complete: the loop of \<open>processResults\<close> has ended.\<close>

definition run_complete :: "engine \<Rightarrow> bool" where
  "run_complete s \<longleftrightarrow> drained_at (mainpc s)"





section \<open>Concrete inputs\<close>

text \<open>
  Small inputs on which the theorems below are instantiated: subprocesses that succeed and
  fail, item lists, options, schedules of the engine, a stand-in for the JSON decoder and
  whole worlds of a run.
\<close>

definition ok_proc :: proc_result where
  "ok_proc = \<lparr> startable = True, chunks = [], exit_code = 0 \<rparr>"

definition failing_proc :: proc_result where
  "failing_proc = \<lparr> startable = True, chunks = [(Stderr, ''Not found.'')], exit_code = 1 \<rparr>"





definition one_item :: "BitwardenItem list" where
  "one_item = [\<lparr> ID = ''a'', Name = ''first'' \<rparr>]"

definition two_items :: "BitwardenItem list" where
  "two_items = [\<lparr> ID = ''a'', Name = ''first'' \<rparr>, \<lparr> ID = ''b'', Name = ''second'' \<rparr>]"

definition two_workers :: CommandOptions where
  "two_workers = \<lparr> searchTerm = [], batchSize = 2, isPermanent = False \<rparr>"

definition idle_schedule :: "action list" where
  "idle_schedule =
     [StepMain, StepMain, StepMain, StepMain, StepCloser, StepCloser, StepMain, StepMain]"

definition interleaved :: "action list" where
  "interleaved =
     [StepMain, StepMain, StepMain, StepMain, StepWorker 0 ok_proc, StepMain,
      StepWorker 1 ok_proc, StepWorker 1 failing_proc, StepWorker 0 ok_proc, StepMain,
      StepWorker 1 ok_proc, StepMain, StepMain, StepWorker 0 ok_proc, StepWorker 0 ok_proc,
      StepWorker 1 ok_proc, StepWorker 0 ok_proc, StepWorker 1 ok_proc, StepCloser, StepMain,
      StepCloser, StepMain, StepMain]"


definition toy_lib :: lib where
  "toy_lib =
     \<lparr> json_Unmarshal =
         (\<lambda>payload. if payload = ''one'' then Inr one_item
                     else if payload = ''none'' then Inr []
                     else Inl ''invalid character''),
       unicode_ToLower = (\<lambda>r. r) \<rparr>"


definition one_worker_flags :: flag_values where
  "one_worker_flags =
     \<lparr> flag_search = [], flag_s = [], flag_batch = 1, flag_b = 1,
       flag_permanent = False, flag_p = False \<rparr>"

definition yes_world :: world where
  "yes_world =
     \<lparr> lookPath = True, sync_before = ok_proc,
       list_result = \<lparr> startable = True, chunks = [(Stdout, ''one'')], exit_code = 0 \<rparr>,
       stdin = [0x79, 0x0A], stdin_end = AtEOF,
       schedule = idle_schedule, sync_after = ok_proc \<rparr>"

definition no_world :: world where
  "no_world =
     \<lparr> lookPath = True, sync_before = ok_proc,
       list_result = \<lparr> startable = True, chunks = [(Stdout, ''one'')], exit_code = 0 \<rparr>,
       stdin = [0x6E, 0x0A], stdin_end = AtEOF,
       schedule = [], sync_after = ok_proc \<rparr>"

definition garbage_world :: world where
  "garbage_world =
     \<lparr> lookPath = True, sync_before = ok_proc,
       list_result = \<lparr> startable = True, chunks = [(Stdout, ''<html>'')], exit_code = 0 \<rparr>,
       stdin = [0x79, 0x0A], stdin_end = AtEOF,
       schedule = [], sync_after = ok_proc \<rparr>"

definition empty_world :: world where
  "empty_world =
     \<lparr> lookPath = True, sync_before = ok_proc,
       list_result = \<lparr> startable = True, chunks = [(Stdout, ''none'')], exit_code = 0 \<rparr>,
       stdin = [0x79, 0x0A], stdin_end = AtEOF,
       schedule = [], sync_after = ok_proc \<rparr>"

definition yes_please :: "rune list" where
  "yes_please = runes ''yes please'' @ [0x0A]"

definition quoted_term :: string where
  "quoted_term = ''a'' @ [CHR 0x27] @ ''b'' @ [CHR 0x27] @ ''c''"

definition apostrophe_term :: string where
  "apostrophe_term = ''O'' @ [CHR 0x27] @ ''Brien''"

section \<open>Proofs: the engine\<close>

lemmas main_defs = processItems_step_def processResults_step_def showCompletionMessage_def

lemma sum_list_map_update:
  fixes f :: "'a \<Rightarrow> 'b::comm_monoid_add"
  shows "i < length ws \<Longrightarrow>
         sum_list (map f (ws[i := x])) + f (ws ! i) = sum_list (map f ws) + f x"
proof (induction ws arbitrary: i)
  case Nil
  then show ?case by simp
next
  case (Cons w ws)
  show ?case
  proof (cases i)
    case 0
    then show ?thesis by (simp add: ac_simps)
  next
    case (Suc j)
    with Cons.prems have "j < length ws" by simp
    from Cons.IH [OF this] Suc show ?thesis by (simp add: ac_simps)
  qed
qed

lemma inflight_update:
  "i < length ws \<Longrightarrow> inflight (ws[i := x]) + mset (held (ws ! i)) = inflight ws + mset (held x)"
  unfolding inflight_def by (rule sum_list_map_update)

lemma executed_update:
  "i < length ws \<Longrightarrow> executed (ws[i := x]) + mset (sending (ws ! i)) = executed ws + mset (sending x)"
  unfolding executed_def by (rule sum_list_map_update)

lemma alive_update:
  "i < length ws \<Longrightarrow>
   alive (ws[i := x]) + (if ws ! i = W_Exited then 0 else 1) =
   alive ws + (if x = W_Exited then 0 else 1)"
  unfolding alive_def by (rule sum_list_map_update)

lemma gone_update:
  "i < length ws \<Longrightarrow>
   gone (ws[i := x]) + (if ws ! i = W_Done \<or> ws ! i = W_Exited then 1 else 0) =
   gone ws + (if x = W_Done \<or> x = W_Exited then 1 else 0)"
  unfolding gone_def by (rule sum_list_map_update)


lemma inflight_append [simp]: "inflight (ws @ [w]) = inflight ws + mset (held w)"
  by (simp add: inflight_def)

lemma executed_append [simp]: "executed (ws @ [w]) = executed ws + mset (sending w)"
  by (simp add: executed_def)

lemma alive_append [simp]: "alive (ws @ [w]) = alive ws + (if w = W_Exited then 0 else 1)"
  by (simp add: alive_def)

lemma gone_append [simp]:
  "gone (ws @ [w]) = gone ws + (if w = W_Done \<or> w = W_Exited then 1 else 0)"
  by (simp add: gone_def)

lemma alive_zero: "alive ws = 0 \<longleftrightarrow> (\<forall>w \<in> set ws. w = W_Exited)"
  by (induction ws) (auto simp: alive_def)

lemma alive_zero_nth: "alive ws = 0 \<Longrightarrow> i < length ws \<Longrightarrow> ws ! i = W_Exited"
  by (simp add: alive_zero)


lemma inflight_exited: "alive ws = 0 \<Longrightarrow> inflight ws = {#}"
  by (induction ws) (auto simp: inflight_def alive_def split: if_splits)


lemma gone_exited: "alive ws = 0 \<Longrightarrow> gone ws = length ws"
  by (induction ws) (auto simp: gone_def alive_def split: if_splits)

text \<open>Case rules: what a successful step of each goroutine looks like.\<close>

lemma processItems_step_cases [consumes 1, case_names spawn spawned feed close_jobs go_closer count leave_loop show_msg]:
  assumes "processItems_step opts items s = Some s'"
  obtains
    (spawn) w where "mainpc s = M_Spawn w" "w \<le> batchSize opts"
      "s' = s\<lparr> wg := wg s + 1, workers := workers s @ [W_Range], mainpc := M_Spawn (w + 1) \<rparr>"
  | (spawned) w where "mainpc s = M_Spawn w" "\<not> w \<le> batchSize opts"
      "s' = s\<lparr> mainpc := M_Feed items \<rparr>"
  | (feed) item rest where "mainpc s = M_Feed (item # rest)"
      "length (buf (jobs s)) < cap (jobs s)"
      "s' = s\<lparr> jobs := (jobs s)\<lparr> buf := buf (jobs s) @ [ID item] \<rparr>, mainpc := M_Feed rest \<rparr>"
  | (close_jobs) "mainpc s = M_Feed []"
      "s' = s\<lparr> jobs := (jobs s)\<lparr> closed := True \<rparr>, mainpc := M_GoCloser \<rparr>"
  | (go_closer) "mainpc s = M_GoCloser" "s' = s\<lparr> closer := C_Wait, mainpc := M_Drain \<rparr>"
  | (count) r rs where "mainpc s = M_Drain" "buf (results s) = r # rs"
      "s' = s\<lparr> results := (results s)\<lparr> buf := rs \<rparr>,
                stats := (stats s)\<lparr> completed := completed (stats s) + 1 \<rparr>,
                out := out s @ [Msg_Progress (completed (stats s) + 1) (total (stats s))],
                drained := drained s @ [r] \<rparr>"
  | (leave_loop) "mainpc s = M_Drain" "buf (results s) = []" "closed (results s)"
      "s' = s\<lparr> mainpc := M_Show \<rparr>"
  | (show_msg) "mainpc s = M_Show"
      "s' = s\<lparr> out := out s @ [Msg_Newline, Msg_AllDeleted (isPermanent opts) (total (stats s))],
                mainpc := M_Return \<rparr>"
proof (cases "mainpc s")
  case (M_Spawn w)
  with assms spawn spawned show ?thesis
    by (cases "w \<le> batchSize opts") (simp_all add: main_defs)
next
  case (M_Feed rest)
  with assms feed close_jobs show ?thesis
    by (cases rest) (simp_all add: main_defs split: if_splits)
next
  case M_GoCloser
  with assms go_closer show ?thesis by (simp add: main_defs)
next
  case M_Drain
  with assms count leave_loop show ?thesis
    by (cases "buf (results s)") (simp_all add: main_defs split: if_splits)
next
  case M_Show
  with assms show_msg show ?thesis by (simp add: main_defs)
next
  case M_Return
  with assms show ?thesis by (simp add: main_defs)
qed

lemma closer_step_cases [consumes 1, case_names waited close_results]:
  assumes "closer_step s = Some s'"
  obtains
    (waited) "closer s = C_Wait" "wg s = 0" "s' = s\<lparr> closer := C_Close \<rparr>"
  | (close_results) "closer s = C_Close"
      "s' = s\<lparr> results := (results s)\<lparr> closed := True \<rparr>, closer := C_Exited \<rparr>"
  using assms by (cases "closer s") (simp_all add: closer_step_def split: if_splits)

lemma deleteWorker_step_cases [consumes 1, case_names receive leave execute send wg_done]:
  assumes "deleteWorker_step opts i p s = Some s'"
  obtains
    (receive) itemID rest where "i < length (workers s)" "workers s ! i = W_Range"
      "buf (jobs s) = itemID # rest"
      "s' = s\<lparr> jobs := (jobs s)\<lparr> buf := rest \<rparr>,
                workers := (workers s)[i := W_Exec itemID],
                received := received s @ [(i, itemID)] \<rparr>"
  | (leave) "i < length (workers s)" "workers s ! i = W_Range"
      "buf (jobs s) = []" "closed (jobs s)"
      "s' = s\<lparr> workers := (workers s)[i := W_Done] \<rparr>"
  | (execute) itemID where "i < length (workers s)" "workers s ! i = W_Exec itemID"
      "s' = s\<lparr> invoked := invoked s @ [(deleteArgv (isPermanent opts) itemID, p)],
                out := out s @ (case cmd_Run p of
                                  Some err \<Rightarrow> [Msg_DeleteError itemID err]
                                | None \<Rightarrow> []),
                workers := (workers s)[i := W_Send itemID] \<rparr>"
  | (send) itemID where "i < length (workers s)" "workers s ! i = W_Send itemID"
      "length (buf (results s)) < cap (results s)"
      "s' = s\<lparr> results := (results s)\<lparr> buf := buf (results s) @ [itemID] \<rparr>,
                emitted := emitted s @ [itemID],
                workers := (workers s)[i := W_Range] \<rparr>"
  | (wg_done) "i < length (workers s)" "workers s ! i = W_Done"
      "s' = s\<lparr> wg := wg s - 1, workers := (workers s)[i := W_Exited] \<rparr>"
proof -
  from assms have i: "i < length (workers s)"
    by (simp add: deleteWorker_step_def split: if_splits)
  show ?thesis
  proof (cases "workers s ! i")
    case W_Range
    with assms i receive leave show ?thesis
      by (cases "buf (jobs s)") (simp_all add: deleteWorker_step_def split: if_splits)
  next
    case (W_Exec x)
    with assms i execute show ?thesis by (simp add: deleteWorker_step_def)
  next
    case (W_Send x)
    with assms i send show ?thesis by (simp add: deleteWorker_step_def split: if_splits)
  next
    case W_Done
    with assms i wg_done show ?thesis by (simp add: deleteWorker_step_def)
  next
    case W_Exited
    with assms i show ?thesis by (simp add: deleteWorker_step_def)
  qed
qed

lemma inv_count_init:
  "inv_count items (init_engine items \<lparr> total = int (length items), completed = 0 \<rparr>)"
  by (simp add: inv_count_def init_engine_def inflight_def)

lemma inv_ctrl_init: "inv_ctrl opts (init_engine items st)"
  by (simp add: inv_ctrl_def init_engine_def alive_def gone_def)

lemma inv_hist_init: "inv_hist opts (init_engine items st)"
  by (simp add: inv_hist_def init_engine_def inflight_def executed_def)

lemma inv_count_main:
  assumes "processItems_step opts items s = Some s'" "inv_count items s"
  shows "inv_count items s'"
  using assms by (cases rule: processItems_step_cases) (auto simp: inv_count_def)

lemma inv_count_closer:
  assumes "closer_step s = Some s'" "inv_count items s"
  shows "inv_count items s'"
  using assms by (cases rule: closer_step_cases) (auto simp: inv_count_def)

lemma inv_count_worker:
  assumes "deleteWorker_step opts i p s = Some s'" "inv_count items s"
  shows "inv_count items s'"
  using assms
proof (cases rule: deleteWorker_step_cases)
  case (receive itemID rest)
  with assms(2) inflight_update [OF receive(1), of "W_Exec itemID"] show ?thesis
    by (auto simp: inv_count_def)
next
  case leave
  with assms(2) inflight_update [OF leave(1), of "W_Done"] show ?thesis
    by (auto simp: inv_count_def)
next
  case (execute itemID)
  with assms(2) inflight_update [OF execute(1), of "W_Send itemID"] show ?thesis
    by (auto simp: inv_count_def)
next
  case (send itemID)
  with assms(2) inflight_update [OF send(1), of "W_Range"] show ?thesis
    by (auto simp: inv_count_def)
next
  case wg_done
  with assms(2) inflight_update [OF wg_done(1), of "W_Exited"] show ?thesis
    by (auto simp: inv_count_def)
qed

lemma inv_ctrl_main:
  assumes "processItems_step opts items s = Some s'" "inv_ctrl opts s"
  shows "inv_ctrl opts s'"
  using assms by (cases rule: processItems_step_cases) (auto simp: inv_ctrl_def)

lemma inv_ctrl_closer:
  assumes "closer_step s = Some s'" "inv_ctrl opts s"
  shows "inv_ctrl opts s'"
  using assms by (cases rule: closer_step_cases) (auto simp: inv_ctrl_def)

lemma inv_ctrl_worker:
  assumes "deleteWorker_step opts i p s = Some s'" "inv_ctrl opts s"
  shows "inv_ctrl opts s'"
  using assms
proof (cases rule: deleteWorker_step_cases)
  case (receive itemID rest)
  with assms(2) alive_update [OF receive(1), of "W_Exec itemID"]
    gone_update [OF receive(1), of "W_Exec itemID"] alive_zero_nth [OF _ receive(1)]
  show ?thesis by (auto simp: inv_ctrl_def)
next
  case leave
  with assms(2) alive_update [OF leave(1), of "W_Done"]
    gone_update [OF leave(1), of "W_Done"] alive_zero_nth [OF _ leave(1)]
  show ?thesis by (auto simp: inv_ctrl_def)
next
  case (execute itemID)
  with assms(2) alive_update [OF execute(1), of "W_Send itemID"]
    gone_update [OF execute(1), of "W_Send itemID"] alive_zero_nth [OF _ execute(1)]
  show ?thesis by (auto simp: inv_ctrl_def)
next
  case (send itemID)
  with assms(2) alive_update [OF send(1), of "W_Range"]
    gone_update [OF send(1), of "W_Range"] alive_zero_nth [OF _ send(1)]
  show ?thesis by (auto simp: inv_ctrl_def)
next
  case wg_done
  with assms(2) alive_update [OF wg_done(1), of "W_Exited"]
    gone_update [OF wg_done(1), of "W_Exited"] alive_zero_nth [OF _ wg_done(1)]
  show ?thesis by (auto simp: inv_ctrl_def)
qed

lemma deleteArgv_nth [simp]: "deleteArgv b itemID ! 3 = itemID"
  by (simp add: deleteArgv_def)

lemma inv_hist_main:
  assumes "processItems_step opts items s = Some s'" "inv_hist opts s"
  shows "inv_hist opts s'"
  using assms by (cases rule: processItems_step_cases) (auto simp: inv_hist_def less_Suc_eq)

lemma inv_hist_closer:
  assumes "closer_step s = Some s'" "inv_hist opts s"
  shows "inv_hist opts s'"
  using assms by (cases rule: closer_step_cases) (auto simp: inv_hist_def)

lemma inv_hist_worker:
  assumes "deleteWorker_step opts i p s = Some s'" "inv_hist opts s"
  shows "inv_hist opts s'"
  using assms
proof (cases rule: deleteWorker_step_cases)
  case (receive itemID rest)
  with assms(2) inflight_update [OF receive(1), of "W_Exec itemID"]
    executed_update [OF receive(1), of "W_Exec itemID"]
  show ?thesis by (auto simp: inv_hist_def)
next
  case leave
  with assms(2) inflight_update [OF leave(1), of "W_Done"]
    executed_update [OF leave(1), of "W_Done"]
  show ?thesis by (auto simp: inv_hist_def)
next
  case (execute itemID)
  with assms(2) inflight_update [OF execute(1), of "W_Send itemID"]
    executed_update [OF execute(1), of "W_Send itemID"]
  show ?thesis by (auto simp: inv_hist_def error_line_def split: option.splits)
next
  case (send itemID)
  with assms(2) inflight_update [OF send(1), of "W_Range"]
    executed_update [OF send(1), of "W_Range"]
  show ?thesis by (auto simp: inv_hist_def)
next
  case wg_done
  with assms(2) inflight_update [OF wg_done(1), of "W_Exited"]
    executed_update [OF wg_done(1), of "W_Exited"]
  show ?thesis by (auto simp: inv_hist_def)
qed

lemma inv_start: "inv opts items (start items)"
  by (simp add: inv_def start_def inv_count_init inv_ctrl_init inv_hist_init)

lemma inv_exec:
  assumes "exec opts items a s = Some s'" "inv opts items s"
  shows "inv opts items s'"
proof (cases a)
  case StepMain
  with assms show ?thesis
    by (simp add: inv_def inv_count_main inv_ctrl_main inv_hist_main)
next
  case StepCloser
  with assms show ?thesis
    by (simp add: inv_def inv_count_closer inv_ctrl_closer inv_hist_closer)
next
  case (StepWorker i p)
  with assms show ?thesis
    by (auto simp: inv_def intro: inv_count_worker inv_ctrl_worker inv_hist_worker)
qed

lemma inv_run:
  "run opts items sched s = Some s' \<Longrightarrow> inv opts items s \<Longrightarrow> inv opts items s'"
proof (induction sched arbitrary: s)
  case Nil
  then show ?case by simp
next
  case (Cons a sched)
  then show ?case by (auto split: option.splits dest: inv_exec)
qed







lemma inv_count_size:
  assumes "inv_count items s"
  shows "length items =
           length (pending items (mainpc s)) + length (buf (jobs s)) + size (inflight (workers s))
           + length (buf (results s)) + length (drained s)"
proof -
  from assms have
    "size (mset (map ID items)) =
       size (mset (pending items (mainpc s)) + mset (buf (jobs s)) + inflight (workers s)
             + mset (buf (results s)) + mset (drained s))"
    by (simp only: inv_count_def)
  then show ?thesis by simp
qed



lemma all_counted:
  assumes "inv opts items s" "alive (workers s) = 0" "workers s \<noteq> []" "buf (results s) = []"
  shows "mset (drained s) = mset (map ID items)"
proof -
  from assms(1) have cnt: "inv_count items s" and ctl: "inv_ctrl opts s"
    by (simp_all add: inv_def)
  from assms(2,3) have "0 < gone (workers s)" by (simp add: gone_exited)
  with ctl have j: "closed (jobs s)" "buf (jobs s) = []" by (auto simp: inv_ctrl_def)
  with ctl have "pending items (mainpc s) = []"
    by (cases "mainpc s") (simp_all add: inv_ctrl_def)
  with cnt j assms(2,4) show ?thesis
    by (simp add: inv_count_def inflight_exited)
qed




section \<open>Proofs: full runs of the engine\<close>

lemmas engine_eval =
  start_def init_engine_def main_defs deleteWorker_step_def closer_step_def finished_def
  cmd_Run_def run_err_def deleteArgv_def




section \<open>Proofs: the counter\<close>

lemma stats_main:
  assumes "processItems_step opts items s = Some s'"
  shows "total (stats s') = total (stats s)
         \<and> (completed (stats s') = completed (stats s)
            \<or> completed (stats s') = completed (stats s) + 1)"
  using assms by (cases rule: processItems_step_cases) auto

lemma stats_closer:
  assumes "closer_step s = Some s'"
  shows "stats s' = stats s"
  using assms by (cases rule: closer_step_cases) auto

lemma stats_worker:
  assumes "deleteWorker_step opts i p s = Some s'"
  shows "stats s' = stats s"
  using assms by (cases rule: deleteWorker_step_cases) auto

lemma stats_exec:
  assumes "exec opts items a s = Some s'"
  shows "total (stats s') = total (stats s) \<and> completed (stats s) \<le> completed (stats s')"
proof (cases a)
  case StepMain
  with assms stats_main [of opts items s s'] show ?thesis by auto
next
  case StepCloser
  with assms stats_closer [of s s'] show ?thesis by simp
next
  case (StepWorker i p)
  with assms stats_worker [of opts i p s s'] show ?thesis by simp
qed

lemma complete_then_counted:
  assumes i: "inv opts items s" and b: "1 \<le> batchSize opts" and c: "run_complete s"
  shows "completed (stats s) = total (stats s) \<and> closed (results s)"
proof -
  from i have cnt: "inv_count items s" and ctl: "inv_ctrl opts s"
    by (simp_all add: inv_def)
  from c ctl have cl: "closed (results s)" and e: "buf (results s) = []"
    by (auto simp: run_complete_def inv_ctrl_def)
  from cl ctl have x: "closer s = C_Exited" by (simp add: inv_ctrl_def)
  with ctl have a: "alive (workers s) = 0" by (simp add: inv_ctrl_def)
  from c ctl b have "workers s \<noteq> []"
    by (cases "mainpc s") (auto simp: run_complete_def inv_ctrl_def)
  from all_counted [OF i a this e] have "length (drained s) = length items"
    using mset_eq_length by fastforce
  with cnt cl show ?thesis by (simp add: inv_count_def)
qed

lemma counted_then_last_step:
  assumes i: "inv opts items s"
    and h: "completed (stats s) = total (stats s)" "closed (results s)"
  shows "run_complete s
         \<or> ((\<exists>s'. exec opts items StepMain s = Some s')
            \<and> (\<forall>a s'. exec opts items a s = Some s' \<longrightarrow> run_complete s' \<and> stats s' = stats s))"
proof (cases "run_complete s")
  case True
  then show ?thesis by simp
next
  case False
  from i have cnt: "inv_count items s" and ctl: "inv_ctrl opts s"
    by (simp_all add: inv_def)
  from h(2) ctl have x: "closer s = C_Exited" by (simp add: inv_ctrl_def)
  with ctl have a: "alive (workers s) = 0" by (simp add: inv_ctrl_def)
  from x ctl have "closer_started_at (mainpc s)" by (auto simp: inv_ctrl_def)
  with False have m: "mainpc s = M_Drain"
    by (cases "mainpc s") (simp_all add: run_complete_def)
  have e: "buf (results s) = []"
  proof -
    from h(1) cnt have "length (drained s) = length items" by (simp add: inv_count_def)
    with inv_count_size [OF cnt] have "length (buf (results s)) = 0" by linarith
    then show ?thesis by simp
  qed
  from m e h(2) have main: "processItems_step opts items s = Some (s\<lparr> mainpc := M_Show \<rparr>)"
    by (simp add: main_defs)
  have "run_complete s' \<and> stats s' = stats s" if st: "exec opts items a s = Some s'" for a s'
  proof (cases a)
    case StepMain
    with st main show ?thesis by (auto simp: run_complete_def)
  next
    case StepCloser
    with st x show ?thesis by (simp add: closer_step_def)
  next
    case (StepWorker k p)
    with st have w: "deleteWorker_step opts k p s = Some s'" by simp
    then have k: "k < length (workers s)" by (simp add: deleteWorker_step_def split: if_splits)
    from alive_zero_nth [OF a k] k w show ?thesis by (simp add: deleteWorker_step_def)
  qed
  with main show ?thesis by auto
qed

text \<open>
  C6 (as amended).  In every state a run of \<open>processItems\<close> can reach, \<open>completed\<close> lies
  between zero and \<open>total\<close>, and no step lowers it or changes \<open>total\<close>.  When the batch size
  is at least one and the run is complete (the loop of \<open>processResults\<close> has ended),
  \<open>completed\<close> equals \<open>total\<close> and \<open>results\<close> has been closed.  In the other direction, when
  \<open>completed\<close> equals \<open>total\<close> and \<open>results\<close> has been closed, the run is complete or is one
  step from it: the main goroutine can move, and whatever step is taken next leaves the
  run complete with the counter as it was.
\<close>

theorem completed_monotone_bounded:
  assumes "run opts items sched (start items) = Some s"
  shows "0 \<le> completed (stats s) \<and> completed (stats s) \<le> total (stats s)
         \<and> (\<forall>a s'. exec opts items a s = Some s' \<longrightarrow>
               completed (stats s) \<le> completed (stats s') \<and> total (stats s') = total (stats s))
         \<and> (1 \<le> batchSize opts \<and> run_complete s \<longrightarrow>
               completed (stats s) = total (stats s) \<and> closed (results s))
         \<and> (completed (stats s) = total (stats s) \<and> closed (results s) \<longrightarrow>
               run_complete s
               \<or> ((\<exists>s'. exec opts items StepMain s = Some s')
                  \<and> (\<forall>a s'. exec opts items a s = Some s' \<longrightarrow>
                        run_complete s' \<and> stats s' = stats s)))
         \<and> (finished s \<longrightarrow> run_complete s)"
proof -
  have i: "inv opts items s"
    using inv_run [OF assms inv_start] .
  then have cnt: "inv_count items s" by (simp add: inv_def)
  from cnt inv_count_size [OF cnt] have
    "0 \<le> completed (stats s) \<and> completed (stats s) \<le> total (stats s)"
    by (simp add: inv_count_def)
  moreover have "\<forall>a s'. exec opts items a s = Some s' \<longrightarrow>
      completed (stats s) \<le> completed (stats s') \<and> total (stats s') = total (stats s)"
    using stats_exec by blast
  moreover have "1 \<le> batchSize opts \<and> run_complete s \<longrightarrow>
      completed (stats s) = total (stats s) \<and> closed (results s)"
    using complete_then_counted [OF i] by blast
  moreover have "completed (stats s) = total (stats s) \<and> closed (results s) \<longrightarrow>
      run_complete s
      \<or> ((\<exists>s'. exec opts items StepMain s = Some s')
         \<and> (\<forall>a s'. exec opts items a s = Some s' \<longrightarrow> run_complete s' \<and> stats s' = stats s))"
    using counted_then_last_step [OF i] by blast
  moreover have "finished s \<longrightarrow> run_complete s"
    by (simp add: finished_def run_complete_def)
  ultimately show ?thesis by blast
qed

theorem completed_monotone_bounded_witness:
  "1 \<le> batchSize two_workers
   \<and> (\<exists>s. run two_workers two_items interleaved (start two_items) = Some s
          \<and> run_complete s
          \<and> completed (stats s) \<le> total (stats s)
          \<and> completed (stats s) = total (stats s) \<and> closed (results s))
   \<and> (\<exists>s. run two_workers two_items (take 21 interleaved) (start two_items) = Some s
          \<and> completed (stats s) = total (stats s) \<and> closed (results s)
          \<and> \<not> run_complete s
          \<and> (\<exists>s'. exec two_workers two_items StepMain s = Some s'))"
proof -
  have b: "1 \<le> batchSize two_workers" by (simp add: two_workers_def)
  have "\<exists>s. run two_workers two_items interleaved (start two_items) = Some s \<and> finished s"
    by (simp add: engine_eval two_workers_def two_items_def interleaved_def ok_proc_def
        failing_proc_def)
  then obtain s where r: "run two_workers two_items interleaved (start two_items) = Some s"
    and f: "finished s"
    by blast
  from completed_monotone_bounded [OF r] b f have
    "run_complete s \<and> completed (stats s) \<le> total (stats s)
     \<and> completed (stats s) = total (stats s) \<and> closed (results s)"
    by blast
  with r have one: "\<exists>s. run two_workers two_items interleaved (start two_items) = Some s
          \<and> run_complete s
          \<and> completed (stats s) \<le> total (stats s)
          \<and> completed (stats s) = total (stats s) \<and> closed (results s)"
    by blast
  have "\<exists>t. run two_workers two_items (take 21 interleaved) (start two_items) = Some t
          \<and> completed (stats t) = total (stats t) \<and> closed (results t) \<and> \<not> run_complete t"
    by (simp add: engine_eval run_complete_def two_workers_def two_items_def interleaved_def
        ok_proc_def failing_proc_def)
  then obtain t where
    rt: "run two_workers two_items (take 21 interleaved) (start two_items) = Some t"
    and ct: "completed (stats t) = total (stats t)" "closed (results t)"
    and nt: "\<not> run_complete t"
    by blast
  from completed_monotone_bounded [OF rt] ct nt have
    "\<exists>s'. exec two_workers two_items StepMain t = Some s'"
    by blast
  with rt ct nt have two:
    "\<exists>s. run two_workers two_items (take 21 interleaved) (start two_items) = Some s
          \<and> completed (stats s) = total (stats s) \<and> closed (results s)
          \<and> \<not> run_complete s
          \<and> (\<exists>s'. exec two_workers two_items StepMain s = Some s')"
    by blast
  from b one two show ?thesis by blast
qed

text \<open>
  With two workers and two items, after 21 steps of the run \<open>results\<close> has been closed
  and \<open>completed\<close> equals \<open>total\<close>, while the main goroutine is still inside the loop of
  \<open>processResults\<close>.
\<close>

theorem counted_and_closed_inside_loop:
  "1 \<le> batchSize two_workers
   \<and> run two_workers two_items (take 21 interleaved) (start two_items) \<noteq> None
   \<and> completed (stats (the (run two_workers two_items (take 21 interleaved) (start two_items))))
       = total (stats (the (run two_workers two_items (take 21 interleaved) (start two_items))))
   \<and> closed (results (the (run two_workers two_items (take 21 interleaved) (start two_items))))
   \<and> mainpc (the (run two_workers two_items (take 21 interleaved) (start two_items))) = M_Drain
   \<and> \<not> run_complete (the (run two_workers two_items (take 21 interleaved) (start two_items)))"
  by (simp add: engine_eval run_complete_def two_workers_def two_items_def interleaved_def
      ok_proc_def failing_proc_def)

section \<open>Proofs: a delete command that fails\<close>





section \<open>Proofs: the sequential part\<close>


lemma runBulkDelete_no_cli:
  assumes "\<not> lookPath w"
  shows "runBulkDelete l w opts =
           Some \<lparr> returned = Some Err_CLINotFound, printed = [], spawned = [], final_stats = None \<rparr>"
  using assms by (simp add: runBulkDelete_def checkBitwardenCLI_def)

lemma runBulkDelete_list_fails:
  assumes "lookPath w" "listed l w opts = Inl err"
  shows "\<exists>r. runBulkDelete l w opts = Some r \<and> returned r = Some err
             \<and> spawned r = first_spawns w opts \<and> final_stats r = None"
  using assms
  by (simp add: runBulkDelete_def checkBitwardenCLI_def listed_def first_spawns_def Let_def
      case_prod_beta)

lemma runBulkDelete_empty:
  assumes "lookPath w" "listed l w opts = Inr []"
  shows "\<exists>r. runBulkDelete l w opts = Some r \<and> returned r = None
             \<and> spawned r = first_spawns w opts
             \<and> final_stats r = Some \<lparr> total = 0, completed = 0 \<rparr>
             \<and> printed r =
                 displayDeletionMode opts @ fst (syncBitwarden ''before starting'' (sync_before w))
                 @ (if snd (syncBitwarden ''before starting'' (sync_before w)) \<noteq> None
                    then [Msg_WarnInitialSync] else [])
                 @ [Msg_Fetching, Msg_Found 0]"
  using assms
  by (simp add: runBulkDelete_def checkBitwardenCLI_def listed_def first_spawns_def Let_def
      displayItemCount_def fetchBitwardenItems_def case_prod_beta)

lemma runBulkDelete_declined:
  assumes "lookPath w" "listed l w opts = Inr items" "items \<noteq> []" "\<not> confirmed l w opts items"
  shows "\<exists>r. runBulkDelete l w opts = Some r \<and> returned r = None
             \<and> spawned r = first_spawns w opts
             \<and> final_stats r = Some \<lparr> total = int (length items), completed = 0 \<rparr>
             \<and> last (printed r) = Msg_Cancelled"
  using assms
  by (simp add: runBulkDelete_def checkBitwardenCLI_def listed_def first_spawns_def Let_def
      confirmed_def case_prod_beta)


lemma first_spawns_no_delete: "filter is_delete (first_spawns w opts) = []"
  by (simp add: first_spawns_def is_delete_def listArgv_def)

section \<open>Proofs: a batch size below one\<close>







section \<open>Proofs: the confirmation\<close>

lemma runes_y: "runes ''y'' = [0x79]" and runes_yes: "runes ''yes'' = [0x79, 0x65, 0x73]"
  by (simp_all add: runes_def)

lemma rune_ToLower_y:
  "lower_ok l \<Longrightarrow> rune_ToLower l r = 0x79 \<longleftrightarrow> r = 0x79 \<or> r = 0x59"
  unfolding lower_ok_def rune_ToLower_def
  by (cases "r < 0x80") (auto split: if_splits)

lemma rune_ToLower_e:
  "lower_ok l \<Longrightarrow> rune_ToLower l r = 0x65 \<longleftrightarrow> r = 0x65 \<or> r = 0x45"
  unfolding lower_ok_def rune_ToLower_def
  by (cases "r < 0x80") (auto split: if_splits)

lemma rune_ToLower_s:
  "lower_ok l \<Longrightarrow> rune_ToLower l r = 0x73 \<longleftrightarrow> r = 0x73 \<or> r = 0x53"
  unfolding lower_ok_def rune_ToLower_def
  by (cases "r < 0x80") (auto split: if_splits)

lemma ToLower_y:
  assumes "lower_ok l"
  shows "ToLower l word = [0x79] \<longleftrightarrow> word = [0x79] \<or> word = [0x59]"
  using rune_ToLower_y [OF assms]
  by (cases word) (auto simp: ToLower_def)

lemma map_eq_three:
  "map g xs = [a, b, c] \<longleftrightarrow> (\<exists>x y z. xs = [x, y, z] \<and> g x = a \<and> g y = b \<and> g z = c)"
  by (cases xs; cases "tl xs"; cases "tl (tl xs)") auto

lemma ToLower_yes:
  assumes "lower_ok l"
  shows "ToLower l word = [0x79, 0x65, 0x73] \<longleftrightarrow>
         (\<exists>x y z. word = [x, y, z] \<and> (x = 0x79 \<or> x = 0x59) \<and> (y = 0x65 \<or> y = 0x45)
            \<and> (z = 0x73 \<or> z = 0x53))"
  by (simp add: ToLower_def map_eq_three rune_ToLower_y [OF assms] rune_ToLower_e [OF assms]
      rune_ToLower_s [OF assms])

lemma affirmative_set:
  "word \<in> set affirmative \<longleftrightarrow>
     word = [0x79] \<or> word = [0x59]
     \<or> (\<exists>x y z. word = [x, y, z] \<and> (x = 0x79 \<or> x = 0x59) \<and> (y = 0x65 \<or> y = 0x45)
            \<and> (z = 0x73 \<or> z = 0x53))"
  by (auto simp: affirmative_def runes_def)

lemma confirmDeletion_iff:
  assumes "lower_ok l"
  shows "snd (confirmDeletion l st opts e rs) \<longleftrightarrow>
         (\<exists>word. Scanln e rs = Inr word \<and> word \<in> set affirmative)"
  by (cases "Scanln e rs")
     (simp_all add: confirmDeletion_def runes_y runes_yes ToLower_y [OF assms]
        ToLower_yes [OF assms] affirmative_set)

lemma not_space_not_newline: "\<not> isSpace r \<Longrightarrow> r \<noteq> 0x0A"
  by (auto simp: isSpace_def)

lemma SkipSpace_blanks:
  assumes "\<forall>r \<in> set pre. isSpace r \<and> r \<noteq> 0x0A" "\<not> isSpace c"
  shows "SkipSpace e (pre @ c # rest) = Inr (c # rest)"
  using assms
proof (induction pre)
  case Nil
  then show ?case using not_space_not_newline [of c] by (auto simp: isSpace_def)
next
  case (Cons r pre)
  then show ?case by simp
qed

lemma token_word:
  assumes "\<forall>r \<in> set word. \<not> isSpace r" "isSpace b"
  shows "token e (word @ b # rest) = Inr (word, b # rest)"
  using assms by (induction word) simp_all

lemma expect_newline_text:
  assumes "\<forall>r \<in> set mid. isSpace r \<and> r \<noteq> 0x0A" "\<not> isSpace c"
  shows "expect_newline e (mid @ c # rest) = Some Scan_ExpectedNewline"
  using assms not_space_not_newline [of c] by (induction mid) simp_all

lemma expect_newline_blanks:
  assumes "\<forall>r \<in> set post. isSpace r \<and> r \<noteq> 0x0A"
  shows "expect_newline e (post @ 0x0A # rest) = None"
  using assms by (induction post) simp_all

text \<open>
  What \<open>Scanln\<close> makes of a line: a word between blanks is read as that word, a line with
  text after the word is an error.
\<close>

lemma Scanln_padded_word:
  assumes "\<forall>r \<in> set pre. isSpace r \<and> r \<noteq> 0x0A" "word \<noteq> []" "\<forall>r \<in> set word. \<not> isSpace r"
    "\<forall>r \<in> set post. isSpace r \<and> r \<noteq> 0x0A"
  shows "Scanln e (pre @ word @ post @ 0x0A # rest) = Inr word"
proof -
  from assms(2) obtain c cs where w: "word = c # cs" by (cases word) auto
  with assms(3) have c: "\<not> isSpace c" by simp
  have s1: "SkipSpace e (pre @ c # (cs @ post @ 0x0A # rest)) = Inr (c # (cs @ post @ 0x0A # rest))"
    using SkipSpace_blanks [OF assms(1) c] .
  have s2: "SkipSpace e (c # (cs @ post @ 0x0A # rest)) = Inr (c # (cs @ post @ 0x0A # rest))"
    using SkipSpace_blanks [of "[]" c] c by simp
  have t: "token e (word @ post @ 0x0A # rest) = Inr (word, post @ 0x0A # rest)"
  proof (cases post)
    case Nil
    then show ?thesis using token_word [OF assms(3), of "0x0A" e rest] by (simp add: isSpace_def)
  next
    case (Cons b post')
    with assms(4) have "isSpace b" by simp
    from token_word [OF assms(3) this] Cons show ?thesis by simp
  qed
  from s1 s2 t expect_newline_blanks [OF assms(4)] w show ?thesis
    by (simp add: Scanln_def convertString_def)
qed

lemma Scanln_trailing_text:
  assumes "\<forall>r \<in> set pre. isSpace r \<and> r \<noteq> 0x0A" "word \<noteq> []" "\<forall>r \<in> set word. \<not> isSpace r"
    "isSpace b" "b \<noteq> 0x0A" "\<forall>r \<in> set mid. isSpace r \<and> r \<noteq> 0x0A" "\<not> isSpace c"
  shows "Scanln e (pre @ word @ b # mid @ c # rest) = Inl Scan_ExpectedNewline"
proof -
  from assms(2) obtain d ds where w: "word = d # ds" by (cases word) auto
  with assms(3) have d: "\<not> isSpace d" by simp
  have s1: "SkipSpace e (pre @ d # (ds @ b # mid @ c # rest)) = Inr (d # (ds @ b # mid @ c # rest))"
    using SkipSpace_blanks [OF assms(1) d] .
  have s2: "SkipSpace e (d # (ds @ b # mid @ c # rest)) = Inr (d # (ds @ b # mid @ c # rest))"
    using SkipSpace_blanks [of "[]" d] d by simp
  have t: "token e (word @ b # mid @ c # rest) = Inr (word, b # mid @ c # rest)"
    using token_word [OF assms(3,4)] .
  have "expect_newline e ((b # mid) @ c # rest) = Some Scan_ExpectedNewline"
    using assms(4,5,6,7) by (intro expect_newline_text) simp_all
  with s1 s2 t w show ?thesis
    by (simp add: Scanln_def convertString_def)
qed

text \<open>
  C10.  The confirmation reads one word, not a line.  Take an input line that holds a word
  (any word, the affirmative ones too), then at least one blank, then further text:
  blanks (none the newline), the word, a blank, blanks, a rune that is no blank, and
  whatever follows.  \<open>Scanln\<close> reports the error that it expected a newline,
  \<open>confirmDeletion\<close> prints the prompt and the read error and returns \<open>false\<close>.
\<close>

theorem trailing_text_declines:
  assumes "\<forall>r \<in> set pre. isSpace r \<and> r \<noteq> 0x0A"
    and "word \<noteq> []" and "\<forall>r \<in> set word. \<not> isSpace r"
    and "isSpace b" and "b \<noteq> 0x0A" and "\<forall>r \<in> set mid. isSpace r \<and> r \<noteq> 0x0A"
    and "\<not> isSpace c"
  shows "Scanln e (pre @ word @ b # mid @ c # rest) = Inl Scan_ExpectedNewline
         \<and> confirmDeletion l st opts e (pre @ word @ b # mid @ c # rest) =
             ([Msg_Confirm (isPermanent opts) (total st),
               Msg_ConfirmReadError Scan_ExpectedNewline], False)"
  using Scanln_trailing_text [OF assms] by (simp add: confirmDeletion_def)

theorem trailing_text_declines_witness:
  "yes_please = [] @ runes ''yes'' @ 0x20 # [] @ 0x70 # runes ''lease'' @ [0x0A]
   \<and> runes ''yes'' \<in> set affirmative
   \<and> Scanln AtEOF yes_please = Inl Scan_ExpectedNewline
   \<and> \<not> snd (confirmDeletion toy_lib \<lparr> total = 1, completed = 0 \<rparr> two_workers AtEOF yes_please)"
proof -
  have y: "yes_please = [] @ runes ''yes'' @ 0x20 # [] @ 0x70 # runes ''lease'' @ [0x0A]"
    by (simp add: yes_please_def runes_def)
  have a: "runes ''yes'' \<in> set affirmative"
    by (simp add: affirmative_def)
  have "Scanln AtEOF ([] @ runes ''yes'' @ 0x20 # [] @ 0x70 # runes ''lease'' @ [0x0A])
          = Inl Scan_ExpectedNewline
        \<and> confirmDeletion toy_lib \<lparr> total = 1, completed = 0 \<rparr> two_workers AtEOF
            ([] @ runes ''yes'' @ 0x20 # [] @ 0x70 # runes ''lease'' @ [0x0A]) =
             ([Msg_Confirm (isPermanent two_workers) (total \<lparr> total = 1, completed = 0 \<rparr>),
               Msg_ConfirmReadError Scan_ExpectedNewline], False)"
    by (rule trailing_text_declines) (simp_all add: runes_def isSpace_def)
  with y a show ?thesis by simp
qed

text \<open>
  C5.  The Unicode table being as it is (\<open>lower_ok\<close>), the confirmation is affirmative
  exactly when \<open>Scanln\<close> succeeds and the word it read is \<open>y\<close> or \<open>yes\<close> in any mix of upper
  and lower case; in particular every read error is a decline.  When a run that lists at
  least one item is declined, the program ends with exit status 0 and no error, the only
  subprocesses it has started are the first sync and the listing (no delete command),
  \<open>completed\<close> is still 0, and the last line printed says that the operation was
  cancelled.
\<close>

theorem confirmation_accepts_only_yes:
  assumes "lower_ok l"
  shows "(confirmed l w (parseCommandLineOptions f) items \<longleftrightarrow>
            (\<exists>word. Scanln (stdin_end w) (stdin w) = Inr word \<and> word \<in> set affirmative))
         \<and> (\<forall>err. Scanln (stdin_end w) (stdin w) = Inl err \<longrightarrow>
               \<not> confirmed l w (parseCommandLineOptions f) items)
         \<and> (lookPath w \<and> listed l w (parseCommandLineOptions f) = Inr items \<and> items \<noteq> []
             \<and> \<not> confirmed l w (parseCommandLineOptions f) items \<longrightarrow>
               (\<exists>r. main l w f = Some (r, 0) \<and> returned r = None
                  \<and> spawned r = first_spawns w (parseCommandLineOptions f)
                  \<and> filter is_delete (spawned r) = []
                  \<and> final_stats r = Some \<lparr> total = int (length items), completed = 0 \<rparr>
                  \<and> last (printed r) = Msg_Cancelled))"
proof -
  let ?o = "parseCommandLineOptions f"
  have iff: "confirmed l w ?o items \<longleftrightarrow>
      (\<exists>word. Scanln (stdin_end w) (stdin w) = Inr word \<and> word \<in> set affirmative)"
    unfolding confirmed_def by (rule confirmDeletion_iff [OF assms])
  then have err: "\<forall>err. Scanln (stdin_end w) (stdin w) = Inl err \<longrightarrow> \<not> confirmed l w ?o items"
    by auto
  have decl: "\<exists>r. main l w f = Some (r, 0) \<and> returned r = None
        \<and> spawned r = first_spawns w ?o
        \<and> filter is_delete (spawned r) = []
        \<and> final_stats r = Some \<lparr> total = int (length items), completed = 0 \<rparr>
        \<and> last (printed r) = Msg_Cancelled"
    if h: "lookPath w" "listed l w ?o = Inr items" "items \<noteq> []" "\<not> confirmed l w ?o items"
  proof -
    from runBulkDelete_declined [OF h] obtain r where
      r: "runBulkDelete l w ?o = Some r" "returned r = None" "spawned r = first_spawns w ?o"
        "final_stats r = Some \<lparr> total = int (length items), completed = 0 \<rparr>"
        "last (printed r) = Msg_Cancelled"
      by blast
    then have "main l w f = Some (r, 0)" by (simp add: main_def)
    with r show ?thesis by (auto simp: first_spawns_no_delete)
  qed
  from iff err decl show ?thesis by blast
qed

theorem confirmation_accepts_only_yes_witness:
  "lower_ok toy_lib
   \<and> confirmed toy_lib yes_world (parseCommandLineOptions one_worker_flags) one_item
   \<and> Scanln (stdin_end yes_world) (stdin yes_world) = Inr (runes ''y'')
   \<and> lookPath no_world
   \<and> listed toy_lib no_world (parseCommandLineOptions one_worker_flags) = Inr one_item
   \<and> one_item \<noteq> []
   \<and> \<not> confirmed toy_lib no_world (parseCommandLineOptions one_worker_flags) one_item
   \<and> (\<exists>r. main toy_lib no_world one_worker_flags = Some (r, 0)
          \<and> filter is_delete (spawned r) = []
          \<and> final_stats r = Some \<lparr> total = 1, completed = 0 \<rparr>)"
proof -
  let ?o = "parseCommandLineOptions one_worker_flags"
  have lo: "lower_ok toy_lib" by (simp add: lower_ok_def toy_lib_def)
  have sy: "Scanln (stdin_end yes_world) (stdin yes_world) = Inr (runes ''y'')"
    by (simp add: Scanln_def convertString_def isSpace_def yes_world_def runes_def)
  have sn: "Scanln (stdin_end no_world) (stdin no_world) = Inr [0x6E]"
    by (simp add: Scanln_def convertString_def isSpace_def no_world_def)
  have lp: "lookPath no_world" by (simp add: no_world_def)
  have li: "listed toy_lib no_world ?o = Inr one_item"
    by (simp add: listed_def fetchBitwardenItems_def cmd_Output_def written_def run_err_def
        no_world_def toy_lib_def)
  have ne: "one_item \<noteq> []" by (simp add: one_item_def)
  note t = confirmation_accepts_only_yes [OF lo]
  from t [of yes_world one_worker_flags one_item] sy
  have cy: "confirmed toy_lib yes_world ?o one_item"
    by (simp add: affirmative_def)
  from t [of no_world one_worker_flags one_item] sn
  have cn: "\<not> confirmed toy_lib no_world ?o one_item"
    by (simp add: affirmative_def runes_def)
  from t [of no_world one_worker_flags one_item] lp li ne cn
  obtain r where "main toy_lib no_world one_worker_flags = Some (r, 0)"
    "filter is_delete (spawned r) = []"
    "final_stats r = Some \<lparr> total = int (length one_item), completed = 0 \<rparr>"
    by blast
  then have "\<exists>r. main toy_lib no_world one_worker_flags = Some (r, 0)
          \<and> filter is_delete (spawned r) = []
          \<and> final_stats r = Some \<lparr> total = 1, completed = 0 \<rparr>"
    by (auto simp: one_item_def)
  with lo cy sy lp li ne cn show ?thesis by blast
qed

section \<open>Proofs: the listing\<close>

lemma listed_cases:
  "listed l w opts =
     (case snd (cmd_Output (list_result w)) of
        Some e \<Rightarrow> Inl (Err_ListExec e)
      | None \<Rightarrow>
          (case json_Unmarshal l (fst (cmd_Output (list_result w))) of
             Inl m \<Rightarrow> Inl (Err_ListParse m)
           | Inr items \<Rightarrow> Inr items))"
  by (simp add: listed_def fetchBitwardenItems_def case_prod_beta)

lemma cmd_Output_fails:
  "run_err p \<noteq> None \<Longrightarrow> \<exists>e. snd (cmd_Output p) = Some e"
  by (auto simp: cmd_Output_def split: option.splits exec_error.splits)

text \<open>
  C7.  When the list command succeeds and its output does not parse, the run returns the
  parse error of the listing, which is another error than the one a failed list command
  gives (that one wraps the error of the command); the process prints the error last and exits with status 1; the only
  subprocesses started are the first sync and the listing (no delete command), and the
  statistics record is never created.
\<close>

theorem malformed_listing_is_fatal:
  assumes "lookPath w" and "cmd_Output (list_result w) = (payload, None)"
    and "json_Unmarshal l payload = Inl m"
  shows "(\<exists>r. main l w f = Some (r, 1)
            \<and> returned r = Some (Err_ListParse m)
            \<and> spawned r = first_spawns w (parseCommandLineOptions f)
            \<and> filter is_delete (spawned r) = []
            \<and> final_stats r = None
            \<and> last (printed r) = Msg_FatalError (Err_ListParse m))
         \<and> (\<forall>e. Err_ListParse m \<noteq> Err_ListExec e)
         \<and> (\<forall>w' e. snd (cmd_Output (list_result w')) = Some e \<longrightarrow>
               listed l w' (parseCommandLineOptions f) = Inl (Err_ListExec e))
         \<and> (\<forall>w'. run_err (list_result w') \<noteq> None \<longrightarrow>
               (\<exists>e. listed l w' (parseCommandLineOptions f) = Inl (Err_ListExec e)))"
proof -
  let ?o = "parseCommandLineOptions f"
  from assms(2,3) have "listed l w ?o = Inl (Err_ListParse m)"
    by (simp add: listed_cases)
  from runBulkDelete_list_fails [OF assms(1) this] obtain r where
    r: "runBulkDelete l w ?o = Some r" "returned r = Some (Err_ListParse m)"
      "spawned r = first_spawns w ?o" "final_stats r = None"
    by blast
  then have "main l w f = Some (r\<lparr> printed := printed r @ [Msg_FatalError (Err_ListParse m)] \<rparr>, 1)"
    by (simp add: main_def)
  with r have "\<exists>r. main l w f = Some (r, 1)
            \<and> returned r = Some (Err_ListParse m)
            \<and> spawned r = first_spawns w ?o
            \<and> filter is_delete (spawned r) = []
            \<and> final_stats r = None
            \<and> last (printed r) = Msg_FatalError (Err_ListParse m)"
    by (simp add: first_spawns_no_delete)
  moreover have "\<forall>w' e. snd (cmd_Output (list_result w')) = Some e \<longrightarrow>
               listed l w' ?o = Inl (Err_ListExec e)"
    by (simp add: listed_cases)
  moreover have "\<forall>w'. run_err (list_result w') \<noteq> None \<longrightarrow>
               (\<exists>e. listed l w' ?o = Inl (Err_ListExec e))"
    using cmd_Output_fails by (fastforce simp: listed_cases)
  ultimately show ?thesis by simp
qed

theorem malformed_listing_is_fatal_witness:
  "lookPath garbage_world
   \<and> cmd_Output (list_result garbage_world) = (''<html>'', None)
   \<and> json_Unmarshal toy_lib ''<html>'' = Inl ''invalid character''
   \<and> (\<exists>r. main toy_lib garbage_world one_worker_flags = Some (r, 1)
          \<and> returned r = Some (Err_ListParse ''invalid character'')
          \<and> filter is_delete (spawned r) = [])"
proof -
  have lp: "lookPath garbage_world" by (simp add: garbage_world_def)
  have co: "cmd_Output (list_result garbage_world) = (''<html>'', None)"
    by (simp add: cmd_Output_def written_def run_err_def garbage_world_def)
  have un: "json_Unmarshal toy_lib ''<html>'' = Inl ''invalid character''"
    by (simp add: toy_lib_def)
  from malformed_listing_is_fatal [OF lp co un, of one_worker_flags] lp co un
  show ?thesis by blast
qed

text \<open>
  C8.  When the listing yields no item, the run returns no error and the process exits
  with status 0; the statistics are \<open>total = 0\<close> and \<open>completed = 0\<close>; the only subprocesses
  started are the first sync and the listing; neither the confirmation prompt nor the
  line that starts the deletion is printed; and standard input, the schedule and the
  last sync play no part in the outcome.
\<close>

theorem empty_listing_skips_everything:
  assumes "lookPath w" and "listed l w (parseCommandLineOptions f) = Inr []"
  shows "(\<exists>r. main l w f = Some (r, 0)
            \<and> returned r = None
            \<and> final_stats r = Some \<lparr> total = 0, completed = 0 \<rparr>
            \<and> spawned r = first_spawns w (parseCommandLineOptions f)
            \<and> filter is_delete (spawned r) = []
            \<and> (\<forall>b n. Msg_Confirm b n \<notin> set (printed r))
            \<and> Msg_Starting \<notin> set (printed r)
            \<and> last (printed r) = Msg_Found 0)
         \<and> (\<forall>i e sc p.
               main l (w\<lparr> stdin := i, stdin_end := e, schedule := sc, sync_after := p \<rparr>) f
               = main l w f)"
proof -
  let ?o = "parseCommandLineOptions f"
  from runBulkDelete_empty [OF assms] obtain r where
    r: "runBulkDelete l w ?o = Some r" "returned r = None" "spawned r = first_spawns w ?o"
      "final_stats r = Some \<lparr> total = 0, completed = 0 \<rparr>"
      "printed r =
         displayDeletionMode ?o @ fst (syncBitwarden ''before starting'' (sync_before w))
         @ (if snd (syncBitwarden ''before starting'' (sync_before w)) \<noteq> None
            then [Msg_WarnInitialSync] else [])
         @ [Msg_Fetching, Msg_Found 0]"
    by blast
  then have m: "main l w f = Some (r, 0)" by (simp add: main_def)
  from r(5) have p: "(\<forall>b n. Msg_Confirm b n \<notin> set (printed r))" "Msg_Starting \<notin> set (printed r)"
    "last (printed r) = Msg_Found 0"
    by (auto simp: displayDeletionMode_def syncBitwarden_def case_prod_beta Let_def
        split: option.splits)
  have indep: "main l (w\<lparr> stdin := i, stdin_end := e, schedule := sc, sync_after := p \<rparr>) f
        = main l w f" for i e sc p
  proof -
    let ?w = "w\<lparr> stdin := i, stdin_end := e, schedule := sc, sync_after := p \<rparr>"
    have "lookPath ?w" using assms(1) by simp
    moreover have "listed l ?w ?o = Inr []" using assms(2) by (simp add: listed_def)
    ultimately obtain r' where
      r': "runBulkDelete l ?w ?o = Some r'" "returned r' = None" "spawned r' = first_spawns ?w ?o"
      "final_stats r' = Some \<lparr> total = 0, completed = 0 \<rparr>"
      "printed r' =
         displayDeletionMode ?o @ fst (syncBitwarden ''before starting'' (sync_before ?w))
         @ (if snd (syncBitwarden ''before starting'' (sync_before ?w)) \<noteq> None
            then [Msg_WarnInitialSync] else [])
         @ [Msg_Fetching, Msg_Found 0]"
      using runBulkDelete_empty [of ?w l ?o] by blast
    with r have "r' = r" by (simp add: first_spawns_def)
    with r' m show ?thesis by (simp add: main_def)
  qed
  from m r p indep show ?thesis by (simp add: first_spawns_no_delete)
qed

theorem empty_listing_skips_everything_witness:
  "lookPath empty_world
   \<and> listed toy_lib empty_world (parseCommandLineOptions one_worker_flags) = Inr []
   \<and> (\<exists>r. main toy_lib empty_world one_worker_flags = Some (r, 0)
          \<and> final_stats r = Some \<lparr> total = 0, completed = 0 \<rparr>
          \<and> length (spawned r) = 2)"
proof -
  have lp: "lookPath empty_world" by (simp add: empty_world_def)
  have li: "listed toy_lib empty_world (parseCommandLineOptions one_worker_flags) = Inr []"
    by (simp add: listed_cases cmd_Output_def written_def run_err_def empty_world_def
        toy_lib_def)
  from empty_listing_skips_everything [OF lp li] obtain r where
    "main toy_lib empty_world one_worker_flags = Some (r, 0)"
    "final_stats r = Some \<lparr> total = 0, completed = 0 \<rparr>"
    "spawned r = first_spawns empty_world (parseCommandLineOptions one_worker_flags)"
    by blast
  then have "\<exists>r. main toy_lib empty_world one_worker_flags = Some (r, 0)
          \<and> final_stats r = Some \<lparr> total = 0, completed = 0 \<rparr>
          \<and> length (spawned r) = 2"
    by (simp add: first_spawns_def)
  with lp li show ?thesis by blast
qed

section \<open>Proofs: what the subprocess calls hand back\<close>












section \<open>Proofs: the search term on its way to the agent\<close>

lemma sh_words_quoted:
  assumes "CHR 0x27 \<notin> set needle"
  shows "sh_words True (Some w) (needle @ [CHR 0x27]) = Some [w @ needle]"
  using assms by (induction needle arbitrary: w) auto

lemma listCmd_nonempty:
  "needle \<noteq> [] \<Longrightarrow> listCmd needle = ''bw list items --search '' @ [CHR 0x27] @ needle @ [CHR 0x27]"
  by (simp add: listCmd_def)

text \<open>A search term without a single quote reaches the agent as it is.\<close>

lemma agent_gets_plain_term:
  assumes "needle \<noteq> []" "CHR 0x27 \<notin> set needle"
  shows "agent_argv needle = Some [''bw'', ''list'', ''items'', ''--search'', needle]"
  using assms sh_words_quoted [OF assms(2), of "[]"]
  by (simp add: agent_argv_def listCmd_def sh_plain_def)

text \<open>
  C2.  The program puts the search term between single quotes into the string it gives
  to \<open>sh -c\<close> and quotes nothing inside the term.  The term \<open>a'b'c\<close> reaches the agent as
  \<open>abc\<close>; with the term \<open>O'Brien\<close> the shell is left with an open quote and the agent is not
  started at all.  The delete command, in contrast, is started directly with the
  identifier as an argument of its own.
\<close>

theorem quote_in_term_is_not_passed:
  "listArgv quoted_term =
     [''sh'', ''-c'', ''bw list items --search '' @ [CHR 0x27] @ quoted_term @ [CHR 0x27]]
   \<and> agent_argv quoted_term = Some [''bw'', ''list'', ''items'', ''--search'', ''abc'']
   \<and> quoted_term \<noteq> ''abc''
   \<and> listArgv apostrophe_term =
     [''sh'', ''-c'', ''bw list items --search '' @ [CHR 0x27] @ apostrophe_term @ [CHR 0x27]]
   \<and> agent_argv apostrophe_term = None
   \<and> deleteArgv False quoted_term = [''bw'', ''delete'', ''item'', quoted_term]"
  by (simp add: listArgv_def listCmd_def agent_argv_def quoted_term_def apostrophe_term_def
      sh_plain_def deleteArgv_def)

end
